theory Spec2Isabelle
  imports Main
begin

section \<open>Brick: a reactive state container (src/brick/Brick.ts)\<close>

text \<open>
  The class \<^verbatim>\<open>Brick<T>\<close> owns a BehaviorSubject holding the current value, a map of
  named reducers, a map of named side effects and an optional devtool adapter.
  The model is a record of these fields, and every method is a function from the
  Brick before the call to the Brick after it.

  What a method does to the outside (pushing a value into the subject, the subject
  invoking an observer, sending to the devtool adapter, invoking a side-effect
  callback) is written, in the order the calls happen, to the field \<open>trace\<close>.

  Limits of the model: observers and side-effect callbacks are opaque, so a callback
  that calls back into the same Brick while it is being notified is not covered;
  reducers, transformers, selectors and comparators are total pure functions, so a
  callback that throws is not covered either.
\<close>

subsection \<open>JavaScript values\<close>

text \<open>
  The values a Brick can hold. A number is an integer here. An object (plain object or
  array, never a function) carries the reference that identifies it and its fields;
  the Brick itself never reads a field. Every object here has \<^verbatim>\<open>Object.prototype\<close> in its
  prototype chain. Functions are not values of this type: the places of the source
  that accept a function have a type of their own below.
\<close>

datatype jsval =
    JUndefined
  | JNull
  | JBool bool
  | JNum int
  | JStr string
  | JObj nat "(string \<times> jsval) list"

text \<open>\<^verbatim>\<open>v instanceof Object\<close>, for a value that is not a function.\<close>

fun instanceof_Object :: "jsval \<Rightarrow> bool" where
  "instanceof_Object (JObj r fs) = True"
| "instanceof_Object v = False"

text \<open>\<^verbatim>\<open>a === b\<close>: primitives by value, objects by reference.\<close>

fun strict_equals :: "jsval \<Rightarrow> jsval \<Rightarrow> bool" where
  "strict_equals (JObj r fs) (JObj r' fs') = (r = r')"
| "strict_equals a b = (a = b)"

text \<open>
  Modelled from the spec: the type \<^verbatim>\<open>SetDataArg<T>\<close> (\<^verbatim>\<open>./types\<close>) is not among the sources.
  The spec gives the argument of setData as a value or a function from the state to
  the state; at run time it is a function (\<^verbatim>\<open>instanceof Function\<close>) or any other value.
\<close>

datatype SetDataArg = Fn "jsval \<Rightarrow> jsval" | Val jsval

subsection \<open>Collaborators: the devtool adapter, callbacks, the stream\<close>

text \<open>
  What \<^verbatim>\<open>devtoolWrapper.send(action, payload)\<close> is given: a state value, or the
  object literal that dispatch builds for a side effect (a new object, written as its
  fields in order).
\<close>

datatype devtool_payload = StatePayload jsval | ObjectLiteral "(string \<times> jsval) list"

text \<open>A side-effect callback is an opaque function; the number says which one.\<close>

datatype callback = Callback nat

datatype event =
    Next jsval                      \<comment> \<open>\<^verbatim>\<open>subject.next(v)\<close> was called\<close>
  | Notify nat jsval                \<comment> \<open>the observer with this index received a value\<close>
  | Send string devtool_payload     \<comment> \<open>\<^verbatim>\<open>devtoolWrapper.send(label, payload)\<close>\<close>
  | Effect callback jsval           \<comment> \<open>a side-effect callback was invoked with a payload\<close>

text \<open>
  Modelled from the spec: the devtool adapter (\<^verbatim>\<open>./devtoolWrapper\<close>) is not among the
  sources. The spec gives it one operation, \<^verbatim>\<open>send(label, payload)\<close>, and says that it
  is built once per Brick from the initial value and may be absent. Whether
  \<^verbatim>\<open>initDevtools\<close> returns an adapter is decided outside the Brick, so it is a parameter.
\<close>

datatype DevtoolWrapper = DevtoolWrapper jsval

definition initDevtools :: "bool \<Rightarrow> jsval \<Rightarrow> DevtoolWrapper option" where
  "initDevtools available initialData =
     (if available then Some (DevtoolWrapper initialData) else None)"

text \<open>
  The stream primitive is the library rxjs, which the repository imports and does not
  contain. BehaviorSubject, map and distinctUntilChanged are modelled as the library
  documents them and as section 6 of the spec requires: the subject keeps the current
  value, hands it to a new subscriber at once, and hands every value pushed later to
  all subscribers in subscription order, within the push.

  The observables a Brick hands out: the subject itself (\<^verbatim>\<open>subject.asObservable()\<close>), or
  \<^verbatim>\<open>subject.pipe(map(selector), distinctUntilChanged(comparator))\<close> with an optional
  comparator.
\<close>

datatype Observable =
    AsObservable
  | Piped "jsval \<Rightarrow> jsval" "(jsval \<Rightarrow> jsval \<Rightarrow> bool) option"

text \<open>
  One subscription: the observable it subscribed to and the state of its
  distinctUntilChanged operator (the last key let through, if any).
\<close>

record subscriber =
  source :: Observable
  key :: "jsval option"

record BehaviorSubject =
  subject_value :: jsval
  observers :: "subscriber list"

subsection \<open>The Brick\<close>

datatype error = Error string

record Brick =
  subject :: BehaviorSubject
  actions :: "string \<rightharpoonup> (jsval \<Rightarrow> jsval \<Rightarrow> jsval)"
  sideEffects :: "string \<rightharpoonup> callback"
  devtoolWrapper :: "DevtoolWrapper option"
  trace :: "event list"

text \<open>
  Modelled from the spec: the operators \<^verbatim>\<open>map\<close> and \<^verbatim>\<open>distinctUntilChanged\<close> belong to rxjs
  and are not among the sources; \<^verbatim>\<open>select$\<close> only hands the selector and the comparator
  on to them. Section 4.1 of the spec says what they do: a subscriber receives the
  selected value only when it differs from the previously emitted selected value under
  the comparator, and without a comparator the values are compared by reference
  (\<^verbatim>\<open>===\<close>).
\<close>

definition compare :: "(jsval \<Rightarrow> jsval \<Rightarrow> bool) option \<Rightarrow> jsval \<Rightarrow> jsval \<Rightarrow> bool" where
  "compare comparator = (case comparator of None \<Rightarrow> strict_equals | Some c \<Rightarrow> c)"

text \<open>
  Modelled from the spec: the delivery of a value by the stream primitive (rxjs, not
  among the sources). The subject hands the value \<open>v\<close> to the subscriber with index \<open>i\<close>.
  A piped subscriber maps it with the selector and lets the result through when it has
  no key yet or the comparator says that the last key and the new one differ.
\<close>

definition deliver :: "nat \<Rightarrow> jsval \<Rightarrow> subscriber \<Rightarrow> subscriber \<times> event list" where
  "deliver i v s =
     (case source s of
        AsObservable \<Rightarrow> (s, [Notify i v])
      | Piped selector comparator \<Rightarrow>
          (let k = selector v;
               result = (case key s of None \<Rightarrow> False | Some prev \<Rightarrow> compare comparator prev k)
           in if \<not> result then (s\<lparr>key := Some k\<rparr>, [Notify i k]) else (s, [])))"

text \<open>All subscribers in subscription order; the first one has index \<open>i\<close>.\<close>

fun notify :: "nat \<Rightarrow> jsval \<Rightarrow> subscriber list \<Rightarrow> subscriber list \<times> event list" where
  "notify i v [] = ([], [])"
| "notify i v (s # ss) =
     (let (s', es) = deliver i v s;
          (ss', es') = notify (Suc i) v ss
      in (s' # ss', es @ es'))"

text \<open>\<^verbatim>\<open>this.subject.next(v)\<close>: store the value, then notify every subscriber.\<close>

definition subject_next :: "jsval \<Rightarrow> Brick \<Rightarrow> Brick" where
  "subject_next v b =
     (let (obs', es) = notify 0 v (observers (subject b))
      in b\<lparr>subject := \<lparr>subject_value = v, observers = obs'\<rparr>,
           trace := trace b @ Next v # es\<rparr>)"

text \<open>\<^verbatim>\<open>this.devtoolWrapper?.send(action, payload)\<close>: nothing happens without an adapter.\<close>

definition send :: "string \<Rightarrow> devtool_payload \<Rightarrow> Brick \<Rightarrow> Brick" where
  "send action payload b =
     (case devtoolWrapper b of
        None \<Rightarrow> b
      | Some d \<Rightarrow> b\<lparr>trace := trace b @ [Send action payload]\<rparr>)"

text \<open>The constructor and \<^verbatim>\<open>createBrick\<close>.\<close>

definition createBrick :: "bool \<Rightarrow> jsval \<Rightarrow> Brick" where
  "createBrick available initialData =
     \<lparr>subject = \<lparr>subject_value = initialData, observers = []\<rparr>,
      actions = Map.empty,
      sideEffects = Map.empty,
      devtoolWrapper = initDevtools available initialData,
      trace = []\<rparr>"

text \<open>\<^verbatim>\<open>get snapshot()\<close>\<close>

definition snapshot :: "Brick \<Rightarrow> jsval" where
  "snapshot b = subject_value (subject b)"

text \<open>The default of setData's second parameter, \<^verbatim>\<open>action: string = 'SET_DATA'\<close>.\<close>

definition label_of :: "string option \<Rightarrow> string" where
  "label_of action_arg = (case action_arg of None \<Rightarrow> ''SET_DATA'' | Some a \<Rightarrow> a)"

text \<open>
  \<^verbatim>\<open>setData(setDataArg, action = 'SET_DATA')\<close>. The function branch pushes the new state
  and then reports it; the object branch reports first and pushes second; any other
  argument falls through both tests.
\<close>

definition setData :: "SetDataArg \<Rightarrow> string option \<Rightarrow> Brick \<Rightarrow> Brick" where
  "setData setDataArg action_arg b =
     (let action = label_of action_arg
      in case setDataArg of
           Fn f \<Rightarrow>
             (let newState = f (subject_value (subject b))
              in send action (StatePayload newState) (subject_next newState b))
         | Val v \<Rightarrow>
             (if instanceof_Object v
              then subject_next v (send action (StatePayload v) b)
              else b))"

text \<open>
  \<^verbatim>\<open>select$(selector?, comparator?)\<close> and \<^verbatim>\<open>asObservable()\<close> build an observable; nothing
  happens until somebody subscribes.
\<close>

definition asObservable :: Observable where
  "asObservable = AsObservable"

definition select :: "(jsval \<Rightarrow> jsval) option \<Rightarrow> (jsval \<Rightarrow> jsval \<Rightarrow> bool) option \<Rightarrow> Observable" where
  "select selector_arg comparator =
     (case selector_arg of
        None \<Rightarrow> AsObservable
      | Some selector \<Rightarrow> Piped selector comparator)"

text \<open>
  Subscribing to an observable of the Brick: the new subscriber goes to the end of the
  subject's list, and a BehaviorSubject hands it the current value at once. The result
  is the subscriber's index and the Brick afterwards.
\<close>

definition subscribe :: "Observable \<Rightarrow> Brick \<Rightarrow> nat \<times> Brick" where
  "subscribe obs b =
     (let i = length (observers (subject b));
          (s, es) = deliver i (subject_value (subject b)) \<lparr>source = obs, key = None\<rparr>
      in (i, b\<lparr>subject := (subject b)\<lparr>observers := observers (subject b) @ [s]\<rparr>,
               trace := trace b @ es\<rparr>))"

text \<open>
  \<^verbatim>\<open>registerAction\<close> and \<^verbatim>\<open>registerSideEffect\<close> throw when the name is taken. The result
  is the error thrown, if any, and the Brick after the call; the throw comes before
  any assignment, so that Brick is the one before the call.
\<close>

definition quoted :: "string \<Rightarrow> string" where
  "quoted name = [CHR 0x22] @ name @ [CHR 0x22]"

definition registerAction ::
  "string \<Rightarrow> (jsval \<Rightarrow> jsval \<Rightarrow> jsval) \<Rightarrow> Brick \<Rightarrow> error option \<times> Brick" where
  "registerAction name reducer b =
     (if actions b name \<noteq> None
      then (Some (Error (''Action with the name '' @ quoted name @ '' is already registered.'')), b)
      else (None, b\<lparr>actions := (actions b)(name \<mapsto> (\<lambda>state payload. reducer state payload))\<rparr>))"

definition registerSideEffect :: "string \<Rightarrow> callback \<Rightarrow> Brick \<Rightarrow> error option \<times> Brick" where
  "registerSideEffect name effect b =
     (if sideEffects b name \<noteq> None
      then (Some (Error (''Side effect with the name '' @ quoted name @ '' is already registered.'')), b)
      else (None, b\<lparr>sideEffects := (sideEffects b)(name \<mapsto> effect)\<rparr>))"

text \<open>
  \<^verbatim>\<open>dispatch(action, payload)\<close>: both lookups are made first; the reducer, if any, goes
  through setData's function branch with the action as label; then the side effect,
  if any, is invoked and reported as \<^verbatim>\<open>{type: 'sideEffect', payload}\<close>.
\<close>

definition dispatch :: "string \<Rightarrow> jsval \<Rightarrow> Brick \<Rightarrow> Brick" where
  "dispatch action payload b =
     (let reducer = actions b action;
          sideEffect = sideEffects b action;
          b1 = (case reducer of
                  Some r \<Rightarrow> setData (Fn (\<lambda>state. r state payload)) (Some action) b
                | None \<Rightarrow> b)
      in case sideEffect of
           Some e \<Rightarrow>
             send action
               (ObjectLiteral [(''type'', JStr ''sideEffect''), (''payload'', payload)])
               (b1\<lparr>trace := trace b1 @ [Effect e payload]\<rparr>)
         | None \<Rightarrow> b1)"

subsection \<open>Sequences of calls\<close>

text \<open>
  A client of the class calls its methods one after the other; a call that throws
  leaves the Brick as it was, and the client may go on.
\<close>

datatype operation =
    SetData SetDataArg "string option"
  | RegisterAction string "jsval \<Rightarrow> jsval \<Rightarrow> jsval"
  | RegisterSideEffect string callback
  | Dispatch string jsval
  | Subscribe Observable

fun exec :: "operation \<Rightarrow> Brick \<Rightarrow> Brick" where
  "exec (SetData setDataArg action_arg) b = setData setDataArg action_arg b"
| "exec (RegisterAction name reducer) b = snd (registerAction name reducer b)"
| "exec (RegisterSideEffect name effect) b = snd (registerSideEffect name effect b)"
| "exec (Dispatch action payload) b = dispatch action payload b"
| "exec (Subscribe obs) b = snd (subscribe obs b)"

definition run :: "operation list \<Rightarrow> Brick \<Rightarrow> Brick" where
  "run ops b = fold exec ops b"

subsection \<open>Reading the trace\<close>

text \<open>The values the subscriber with index \<open>i\<close> received, oldest first.\<close>

fun received :: "nat \<Rightarrow> event list \<Rightarrow> jsval list" where
  "received i [] = []"
| "received i (Notify j v # es) = (if j = i then v # received i es else received i es)"
| "received i (e # es) = received i es"

text \<open>The values pushed into the subject, oldest first.\<close>

fun published :: "event list \<Rightarrow> jsval list" where
  "published [] = []"
| "published (Next v # es) = v # published es"
| "published (e # es) = published es"

text \<open>The calls of side-effect callbacks, oldest first.\<close>

fun calls :: "event list \<Rightarrow> (callback \<times> jsval) list" where
  "calls [] = []"
| "calls (Effect c p # es) = (c, p) # calls es"
| "calls (e # es) = calls es"

text \<open>The events written between the Brick \<open>b\<close> and a later Brick \<open>b'\<close>.\<close>

definition since :: "Brick \<Rightarrow> Brick \<Rightarrow> event list" where
  "since b b' = drop (length (trace b)) (trace b')"

text \<open>What a report to the adapter adds to the trace: one event, or none without adapter.\<close>

definition sent :: "DevtoolWrapper option \<Rightarrow> string \<Rightarrow> devtool_payload \<Rightarrow> event list" where
  "sent d label payload = (case d of None \<Rightarrow> [] | Some w \<Rightarrow> [Send label payload])"

text \<open>
  A state transition of the Brick \<open>b\<close> to the value \<open>v\<close> as setData's function branch
  performs it: the push, the notifications of the subscribers, the report.
\<close>

definition transition :: "Brick \<Rightarrow> string \<Rightarrow> jsval \<Rightarrow> event list" where
  "transition b label v =
     Next v # snd (notify 0 v (observers (subject b)))
       @ sent (devtoolWrapper b) label (StatePayload v)"

text \<open>
  The specification of a selection, in the words of the spec: a selected value is
  emitted only when it differs, under the comparator, from the previously emitted one;
  the first is always emitted.
\<close>

fun suppress_from :: "('a \<Rightarrow> 'a \<Rightarrow> bool) \<Rightarrow> 'a \<Rightarrow> 'a list \<Rightarrow> 'a list" where
  "suppress_from same prev [] = []"
| "suppress_from same prev (x # xs) =
     (if same prev x then suppress_from same prev xs else x # suppress_from same x xs)"

fun suppress_consecutive :: "('a \<Rightarrow> 'a \<Rightarrow> bool) \<Rightarrow> 'a list \<Rightarrow> 'a list" where
  "suppress_consecutive same [] = []"
| "suppress_consecutive same (x # xs) = x # suppress_from same x xs"

fun last_kept :: "('a \<Rightarrow> 'a \<Rightarrow> bool) \<Rightarrow> 'a \<Rightarrow> 'a list \<Rightarrow> 'a" where
  "last_kept same prev [] = prev"
| "last_kept same prev (x # xs) =
     (if same prev x then last_kept same prev xs else last_kept same x xs)"

text \<open>
  One subscriber fed a sequence of values by the subject: the subscriber afterwards and
  what it received.
\<close>

fun feed :: "nat \<Rightarrow> jsval list \<Rightarrow> subscriber \<Rightarrow> subscriber \<times> jsval list" where
  "feed i [] s = (s, [])"
| "feed i (v # vs) s =
     (let (s', es) = deliver i v s;
          (s'', rs) = feed i vs s'
      in (s'', received i es @ rs))"

text \<open>
  The relation between a Brick and a later one that every method keeps: the trace only
  grows, the current value is the last value pushed in between (the old one if none
  was), no subscriber leaves, and every subscriber was fed exactly the values pushed in
  between.
\<close>

definition later :: "Brick \<Rightarrow> Brick \<Rightarrow> bool" where
  "later b b' \<longleftrightarrow>
     trace b' = trace b @ since b b' \<and>
     snapshot b' = last (snapshot b # published (since b b')) \<and>
     length (observers (subject b)) \<le> length (observers (subject b')) \<and>
     (\<forall>i < length (observers (subject b)).
        (observers (subject b') ! i, received i (since b b'))
          = feed i (published (since b b')) (observers (subject b) ! i))"

subsection \<open>Scenarios\<close>

text \<open>
  The reducer of the spec's scenario, \<^verbatim>\<open>(s, p) => ({count: s.count + p})\<close>. Reading a
  property that is not there gives \<^verbatim>\<open>undefined\<close>; \<^verbatim>\<open>+\<close> adds two numbers and joins two
  strings (the conversions JavaScript makes for other operands are not modelled, and
  the scenario has none). The object literal makes a new object; which reference it
  gets is left open, as the parameter \<open>new\<close>.
\<close>

definition get_field :: "jsval \<Rightarrow> string \<Rightarrow> jsval" where
  "get_field s k =
     (case s of
        JObj r fs \<Rightarrow> (case map_of fs k of Some v \<Rightarrow> v | None \<Rightarrow> JUndefined)
      | _ \<Rightarrow> JUndefined)"

fun js_plus :: "jsval \<Rightarrow> jsval \<Rightarrow> jsval" where
  "js_plus (JNum a) (JNum b) = JNum (a + b)"
| "js_plus (JStr a) (JStr b) = JStr (a @ b)"
| "js_plus a b = JUndefined"

definition inc :: "(jsval \<Rightarrow> jsval \<Rightarrow> nat) \<Rightarrow> jsval \<Rightarrow> jsval \<Rightarrow> jsval" where
  "inc new s p = JObj (new s p) [(''count'', js_plus (get_field s ''count'') p)]"

definition fields_of :: "jsval \<Rightarrow> (string \<times> jsval) list" where
  "fields_of v = (case v of JObj r fs \<Rightarrow> fs | _ \<Rightarrow> [])"

text \<open>A Brick that starts at \<^verbatim>\<open>{count: 0}\<close> with the action INC registered.\<close>

definition counter_brick :: "bool \<Rightarrow> (jsval \<Rightarrow> jsval \<Rightarrow> nat) \<Rightarrow> Brick" where
  "counter_brick available new =
     snd (registerAction ''INC'' (inc new)
       (createBrick available (JObj 0 [(''count'', JNum 0)])))"

text \<open>
  The same Brick with an adapter, one subscriber to the plain stream and a side effect
  that is registered under the name INC as well.
\<close>

definition watched_counter :: Brick where
  "watched_counter =
     snd (registerSideEffect ''INC'' (Callback 0)
       (snd (subscribe asObservable (counter_brick True (\<lambda>s p. 1)))))"

text \<open>A Brick of numbers with an adapter and one subscriber to the plain stream.\<close>

definition number_brick :: Brick where
  "number_brick = snd (subscribe asObservable (createBrick True (JNum 0)))"

text \<open>A Brick with an adapter and the side effect LOG, and nothing else.\<close>

definition logging_brick :: Brick where
  "logging_brick = snd (registerSideEffect ''LOG'' (Callback 0) (createBrick True JNull))"

text \<open>
  A Brick that starts at 1, and the four updates to 1, 2, 2 and 1 (a number can only be
  installed through a transformer).
\<close>

definition one_brick :: Brick where
  "one_brick = createBrick False (JNum 1)"

definition updates :: "operation list" where
  "updates =
     [SetData (Fn (\<lambda>s. JNum 1)) None, SetData (Fn (\<lambda>s. JNum 2)) None,
      SetData (Fn (\<lambda>s. JNum 2)) None, SetData (Fn (\<lambda>s. JNum 1)) None]"

text \<open>
  A Brick that starts at the object 0 with the field \<^verbatim>\<open>n: 1\<close>, and three updates: to the
  same object, to another object with the same field, and to that other object again.
  A comparator that looks at the fields only.
\<close>

definition object_brick :: Brick where
  "object_brick = createBrick False (JObj 0 [(''n'', JNum 1)])"

definition object_updates :: "operation list" where
  "object_updates =
     [SetData (Val (JObj 0 [(''n'', JNum 1)])) None,
      SetData (Val (JObj 1 [(''n'', JNum 1)])) None,
      SetData (Val (JObj 1 [(''n'', JNum 1)])) None]"

definition same_fields :: "jsval \<Rightarrow> jsval \<Rightarrow> bool" where
  "same_fields a b = (fields_of a = fields_of b)"

section \<open>Properties of the collaborators\<close>

lemma received_append: "received i (es @ fs) = received i es @ received i fs"
  by (induction i es rule: received.induct) auto

lemma published_append: "published (es @ fs) = published es @ published fs"
  by (induction es rule: published.induct) auto

lemma received_sent: "received i (sent d l p) = []"
  by (simp add: sent_def split: option.splits)

lemma published_sent: "published (sent d l p) = []"
  by (simp add: sent_def split: option.splits)

lemma deliver_other: "j \<noteq> i \<Longrightarrow> received j (snd (deliver i v s)) = []"
  by (simp add: deliver_def Let_def split: Observable.splits)

lemma published_deliver: "published (snd (deliver i v s)) = []"
  by (simp add: deliver_def Let_def split: Observable.splits)

lemma deliver_direct:
  "source s = AsObservable \<Longrightarrow> deliver i v s = (s, [Notify i v])"
  by (simp add: deliver_def)

lemma length_notify: "length (fst (notify i v ss)) = length ss"
  by (induction ss arbitrary: i) (auto simp: split_beta Let_def)

lemma published_notify: "published (snd (notify i v ss)) = []"
  by (induction ss arbitrary: i) (auto simp: split_beta Let_def published_append published_deliver)

lemma received_notify_below: "j < i \<Longrightarrow> received j (snd (notify i v ss)) = []"
  by (induction ss arbitrary: i) (auto simp: split_beta Let_def received_append deliver_other)

lemma nth_notify:
  "k < length ss \<Longrightarrow> fst (notify i v ss) ! k = fst (deliver (i + k) v (ss ! k))"
proof (induction ss arbitrary: i k)
  case Nil
  then show ?case by simp
next
  case (Cons s ss)
  show ?case
  proof (cases k)
    case 0
    then show ?thesis by (simp add: split_beta Let_def)
  next
    case (Suc k')
    with Cons.prems have "k' < length ss" by simp
    from Cons.IH [OF this, of "Suc i"] Suc show ?thesis
      by (simp add: split_beta Let_def)
  qed
qed

lemma received_notify:
  "k < length ss \<Longrightarrow>
     received (i + k) (snd (notify i v ss)) = received (i + k) (snd (deliver (i + k) v (ss ! k)))"
proof (induction ss arbitrary: i k)
  case Nil
  then show ?case by simp
next
  case (Cons s ss)
  show ?case
  proof (cases k)
    case 0
    then show ?thesis
      by (simp add: split_beta Let_def received_append received_notify_below)
  next
    case (Suc k')
    with Cons.prems have "k' < length ss" by simp
    from Cons.IH [OF this, of "Suc i"] Suc show ?thesis
      by (simp add: split_beta Let_def received_append deliver_other)
  qed
qed

lemma notify_only_notifies: "e \<in> set (snd (notify i v ss)) \<Longrightarrow> \<exists>j w. e = Notify j w"
  by (induction ss arbitrary: i)
     (auto simp: split_beta Let_def deliver_def split: Observable.splits if_splits)

lemma since_append: "trace b' = trace b @ es \<Longrightarrow> since b b' = es"
  by (simp add: since_def)

lemma since_self: "since b b = []"
  by (simp add: since_def)

lemma feed_append:
  "feed i (xs @ ys) s =
     (fst (feed i ys (fst (feed i xs s))), snd (feed i xs s) @ snd (feed i ys (fst (feed i xs s))))"
  by (induction xs arbitrary: s) (auto simp: split_beta Let_def)

lemma feed_piped:
  "source s = Piped selector comparator \<Longrightarrow> key s = Some k \<Longrightarrow>
     feed i vs s =
       (s\<lparr>key := Some (last_kept (compare comparator) k (map selector vs))\<rparr>,
        suppress_from (compare comparator) k (map selector vs))"
proof (induction vs arbitrary: s k)
  case Nil
  then show ?case by simp
next
  case (Cons v vs)
  show ?case
  proof (cases "compare comparator k (selector v)")
    case True
    with Cons.prems have "deliver i v s = (s, [])"
      by (simp add: deliver_def Let_def)
    with Cons.IH [OF Cons.prems] True show ?thesis by simp
  next
    case False
    let ?s = "s\<lparr>key := Some (selector v)\<rparr>"
    from False Cons.prems have d: "deliver i v s = (?s, [Notify i (selector v)])"
      by (simp add: deliver_def Let_def)
    from Cons.prems have "source ?s = Piped selector comparator" "key ?s = Some (selector v)"
      by simp_all
    from Cons.IH [OF this] d False show ?thesis by simp
  qed
qed

lemma later_refl: "later b b"
  by (simp add: later_def since_self)

lemma later_trans:
  assumes ab: "later a b" and bc: "later b c"
  shows "later a c"
proof -
  from ab have tb: "trace b = trace a @ since a b" by (simp add: later_def)
  from bc have tc: "trace c = trace b @ since b c" by (simp add: later_def)
  from tb tc have "trace c = trace a @ (since a b @ since b c)" by simp
  then have s: "since a c = since a b @ since b c" by (rule since_append)
  have len: "length (observers (subject a)) \<le> length (observers (subject c))"
    using ab bc by (simp add: later_def)
  from ab have "snapshot b = last (snapshot a # published (since a b))"
    by (simp add: later_def)
  moreover from bc have "snapshot c = last (snapshot b # published (since b c))"
    by (simp add: later_def)
  ultimately have snap: "snapshot c = last (snapshot a # published (since a c))"
    by (simp add: s published_append)
  have "(observers (subject c) ! i, received i (since a c))
          = feed i (published (since a c)) (observers (subject a) ! i)"
    if i: "i < length (observers (subject a))" for i
  proof -
    from ab i have 1: "(observers (subject b) ! i, received i (since a b))
          = feed i (published (since a b)) (observers (subject a) ! i)"
      by (simp add: later_def)
    from ab i have "i < length (observers (subject b))" by (simp add: later_def)
    with bc have 2: "(observers (subject c) ! i, received i (since b c))
          = feed i (published (since b c)) (observers (subject b) ! i)"
      by (simp add: later_def)
    from 1 have f1: "fst (feed i (published (since a b)) (observers (subject a) ! i))
        = observers (subject b) ! i"
      and r1: "snd (feed i (published (since a b)) (observers (subject a) ! i))
        = received i (since a b)"
      by (metis fst_conv, metis snd_conv)
    from 2 have f2: "fst (feed i (published (since b c)) (observers (subject b) ! i))
        = observers (subject c) ! i"
      and r2: "snd (feed i (published (since b c)) (observers (subject b) ! i))
        = received i (since b c)"
      by (metis fst_conv, metis snd_conv)
    show ?thesis
      by (simp add: s published_append received_append feed_append f1 r1 f2 r2)
  qed
  with tb tc s len snap show ?thesis
    by (simp add: later_def)
qed

lemma later_subject_next: "later b (subject_next v b)"
proof -
  let ?obs = "observers (subject b)"
  have t: "trace (subject_next v b) = trace b @ Next v # snd (notify 0 v ?obs)"
    by (simp add: subject_next_def split_beta)
  have o: "observers (subject (subject_next v b)) = fst (notify 0 v ?obs)"
    by (simp add: subject_next_def split_beta)
  have s: "since b (subject_next v b) = Next v # snd (notify 0 v ?obs)"
    using t by (rule since_append)
  have "(fst (notify 0 v ?obs) ! i, received i (Next v # snd (notify 0 v ?obs)))
          = feed i (published (Next v # snd (notify 0 v ?obs))) (?obs ! i)"
    if "i < length ?obs" for i
    using that nth_notify [of i ?obs 0 v] received_notify [of i ?obs 0 v]
    by (simp add: published_notify split_beta)
  moreover have "snapshot (subject_next v b) = v"
    by (simp add: subject_next_def split_beta snapshot_def)
  ultimately show ?thesis
    by (simp add: later_def t o s length_notify published_notify)
qed

lemma later_send: "later b (send action payload b)"
  by (cases "devtoolWrapper b") (simp_all add: send_def later_def since_def snapshot_def)

lemma later_effect: "later b (b\<lparr>trace := trace b @ [Effect e p]\<rparr>)"
  by (simp add: later_def since_def snapshot_def)

lemma later_subscribe: "later b (snd (subscribe obs b))"
proof -
  let ?n = "length (observers (subject b))"
  let ?d = "deliver ?n (subject_value (subject b)) \<lparr>source = obs, key = None\<rparr>"
  have t: "trace (snd (subscribe obs b)) = trace b @ snd ?d"
    by (simp add: subscribe_def Let_def split_beta)
  have o: "observers (subject (snd (subscribe obs b))) = observers (subject b) @ [fst ?d]"
    by (simp add: subscribe_def Let_def split_beta)
  have s: "since b (snd (subscribe obs b)) = snd ?d"
    using t by (rule since_append)
  have v: "snapshot (snd (subscribe obs b)) = snapshot b"
    by (simp add: subscribe_def Let_def split_beta snapshot_def)
  show ?thesis
    by (simp add: later_def t o s v published_deliver deliver_other nth_append)
qed

lemma later_setData: "later b (setData setDataArg action_arg b)"
proof (cases setDataArg)
  case (Fn f)
  have "later b (subject_next (f (subject_value (subject b))) b)"
    by (rule later_subject_next)
  moreover have "later (subject_next (f (subject_value (subject b))) b)
      (send (label_of action_arg) (StatePayload (f (subject_value (subject b))))
         (subject_next (f (subject_value (subject b))) b))"
    by (rule later_send)
  ultimately show ?thesis
    using Fn by (simp add: setData_def label_of_def Let_def later_trans)
next
  case (Val v)
  show ?thesis
  proof (cases "instanceof_Object v")
    case True
    have "later b (send (label_of action_arg) (StatePayload v) b)"
      by (rule later_send)
    moreover have "later (send (label_of action_arg) (StatePayload v) b)
        (subject_next v (send (label_of action_arg) (StatePayload v) b))"
      by (rule later_subject_next)
    ultimately show ?thesis
      using Val True by (simp add: setData_def label_of_def Let_def later_trans)
  next
    case False
    with Val show ?thesis by (simp add: setData_def later_refl)
  qed
qed

lemma later_registerAction: "later b (snd (registerAction name reducer b))"
  by (simp add: registerAction_def later_def since_def snapshot_def)

lemma later_registerSideEffect: "later b (snd (registerSideEffect name effect b))"
  by (simp add: registerSideEffect_def later_def since_def snapshot_def)

lemma later_dispatch: "later b (dispatch action payload b)"
proof -
  define b1 where "b1 = (case actions b action of
      Some r \<Rightarrow> setData (Fn (\<lambda>state. r state payload)) (Some action) b | None \<Rightarrow> b)"
  have 1: "later b b1"
    by (cases "actions b action") (simp_all add: b1_def later_refl later_setData)
  show ?thesis
  proof (cases "sideEffects b action")
    case None
    with 1 show ?thesis by (simp add: dispatch_def b1_def Let_def)
  next
    case (Some e)
    let ?b2 = "b1\<lparr>trace := trace b1 @ [Effect e payload]\<rparr>"
    let ?lit = "ObjectLiteral [(''type'', JStr ''sideEffect''), (''payload'', payload)]"
    have "later b1 ?b2" by (rule later_effect)
    moreover have "later ?b2 (send action ?lit ?b2)" by (rule later_send)
    ultimately have "later b (send action ?lit ?b2)"
      using 1 by (blast intro: later_trans)
    with Some show ?thesis by (simp add: dispatch_def b1_def Let_def)
  qed
qed

lemma later_exec: "later b (exec op b)"
  by (cases op)
     (simp_all add: later_setData later_registerAction later_registerSideEffect
        later_dispatch later_subscribe)

lemma later_run: "later b (run ops b)"
proof (induction ops arbitrary: b)
  case Nil
  show ?case by (simp add: run_def later_refl)
next
  case (Cons op ops)
  have "later b (exec op b)" by (rule later_exec)
  moreover have "later (exec op b) (run ops (exec op b))" by (rule Cons.IH)
  ultimately show ?case by (simp add: run_def later_trans)
qed

section \<open>Properties of the methods\<close>

lemma send_simps:
  "subject (send action payload b) = subject b"
  "actions (send action payload b) = actions b"
  "sideEffects (send action payload b) = sideEffects b"
  "devtoolWrapper (send action payload b) = devtoolWrapper b"
  "trace (send action payload b) = trace b @ sent (devtoolWrapper b) action payload"
  by (simp_all add: send_def sent_def split: option.splits)

lemma subject_next_simps:
  "subject_value (subject (subject_next v b)) = v"
  "observers (subject (subject_next v b)) = fst (notify 0 v (observers (subject b)))"
  "actions (subject_next v b) = actions b"
  "sideEffects (subject_next v b) = sideEffects b"
  "devtoolWrapper (subject_next v b) = devtoolWrapper b"
  "trace (subject_next v b) = trace b @ Next v # snd (notify 0 v (observers (subject b)))"
  by (simp_all add: subject_next_def split_beta)

lemma setData_Fn_simps:
  "snapshot (setData (Fn f) action_arg b) = f (snapshot b)"
  "actions (setData (Fn f) action_arg b) = actions b"
  "sideEffects (setData (Fn f) action_arg b) = sideEffects b"
  "devtoolWrapper (setData (Fn f) action_arg b) = devtoolWrapper b"
  "trace (setData (Fn f) action_arg b) = trace b @ transition b (label_of action_arg) (f (snapshot b))"
  by (simp_all add: setData_def Let_def snapshot_def send_simps subject_next_simps
        transition_def label_of_def)

lemma setData_Val_simps:
  "instanceof_Object v \<Longrightarrow> snapshot (setData (Val v) action_arg b) = v"
  "instanceof_Object v \<Longrightarrow> trace (setData (Val v) action_arg b) =
     trace b @ sent (devtoolWrapper b) (label_of action_arg) (StatePayload v)
       @ Next v # snd (notify 0 v (observers (subject b)))"
  "\<not> instanceof_Object v \<Longrightarrow> setData (Val v) action_arg b = b"
  "actions (setData (Val v) action_arg b) = actions b"
  "sideEffects (setData (Val v) action_arg b) = sideEffects b"
  by (simp_all add: setData_def Let_def snapshot_def send_simps subject_next_simps label_of_def)

lemma received_notify_direct:
  assumes "i < length ss" and "source (ss ! i) = AsObservable"
  shows "received i (snd (notify 0 v ss)) = [v]"
  using received_notify [OF assms(1), of 0 v] assms(2) by (simp add: deliver_direct)

lemma received_transition_direct:
  assumes "i < length (observers (subject b))"
    and "source (observers (subject b) ! i) = AsObservable"
  shows "received i (transition b label v) = [v]"
  using received_notify_direct [OF assms]
  by (simp add: transition_def received_append received_sent)

lemma published_transition: "published (transition b label v) = [v]"
  by (simp add: transition_def published_append published_sent published_notify)

lemma calls_append: "calls (es @ fs) = calls es @ calls fs"
  by (induction es rule: calls.induct) auto

lemma calls_sent: "calls (sent d l p) = []"
  by (simp add: sent_def split: option.splits)

lemma calls_notify: "calls (snd (notify i v ss)) = []"
  by (induction ss arbitrary: i)
     (auto simp: split_beta Let_def calls_append deliver_def split: Observable.splits)

lemma calls_transition: "calls (transition b label v) = []"
  by (simp add: transition_def calls_append calls_sent calls_notify)

lemma strict_equals_refl: "strict_equals v v"
  by (cases v) simp_all

lemma dispatch_trace:
  "trace (dispatch name p b) =
     trace b
       @ (case actions b name of None \<Rightarrow> [] | Some r \<Rightarrow> transition b name (r (snapshot b) p))
       @ (case sideEffects b name of None \<Rightarrow> []
          | Some e \<Rightarrow> Effect e p #
              sent (devtoolWrapper b) name
                (ObjectLiteral [(''type'', JStr ''sideEffect''), (''payload'', p)]))"
  by (simp add: dispatch_def Let_def send_simps setData_Fn_simps label_of_def
        split: option.splits)

lemma dispatch_snapshot:
  "snapshot (dispatch name p b) =
     (case actions b name of None \<Rightarrow> snapshot b | Some r \<Rightarrow> r (snapshot b) p)"
  by (simp add: dispatch_def Let_def send_simps setData_Fn_simps snapshot_def [of "send _ _ _"]
        snapshot_def [of "_\<lparr>trace := _\<rparr>"] split: option.splits)
     (simp_all add: snapshot_def [symmetric] setData_Fn_simps)

lemma dispatch_registries:
  "actions (dispatch name p b) = actions b"
  "sideEffects (dispatch name p b) = sideEffects b"
  by (simp_all add: dispatch_def Let_def send_simps setData_Fn_simps split: option.splits)

lemma setData_registries:
  "actions (setData setDataArg action_arg b) = actions b"
  "sideEffects (setData setDataArg action_arg b) = sideEffects b"
  by (cases setDataArg; simp add: setData_Fn_simps setData_Val_simps)+

lemma exec_keeps_action: "actions b name = Some r \<Longrightarrow> actions (exec op b) name = Some r"
  by (cases op)
     (auto simp: setData_registries dispatch_registries registerAction_def
        registerSideEffect_def subscribe_def Let_def split_beta)

lemma exec_keeps_sideEffect:
  "sideEffects b name = Some e \<Longrightarrow> sideEffects (exec op b) name = Some e"
  by (cases op)
     (auto simp: setData_registries dispatch_registries registerAction_def
        registerSideEffect_def subscribe_def Let_def split_beta)

lemma select_received:
  assumes sub: "subscribe (select (Some selector) comparator) b = (i, b1)"
  shows "received i (since b (run ops b1)) =
        suppress_consecutive (compare comparator)
          (map selector (snapshot b # published (since b1 (run ops b1))))
      \<and> snapshot (run ops b1) = last (snapshot b # published (since b1 (run ops b1)))"
proof -
  let ?obs = "observers (subject b)"
  let ?k = "selector (snapshot b)"
  let ?s = "\<lparr>source = Piped selector comparator, key = Some ?k\<rparr>"
  from sub have i: "i = length ?obs"
    by (simp add: subscribe_def select_def Let_def split_beta)
  from sub have b1: "b1 = snd (subscribe (select (Some selector) comparator) b)"
    by simp
  have t1: "trace b1 = trace b @ [Notify i ?k]"
    by (simp add: b1 i subscribe_def select_def deliver_def Let_def snapshot_def)
  have o1: "observers (subject b1) = ?obs @ [?s]"
    by (simp add: b1 subscribe_def select_def deliver_def Let_def snapshot_def)
  let ?b2 = "run ops b1"
  have l: "later b1 ?b2" by (rule later_run)
  then have t2: "trace ?b2 = trace b1 @ since b1 ?b2"
    by (simp add: later_def)
  from l have "(observers (subject ?b2) ! i, received i (since b1 ?b2))
      = feed i (published (since b1 ?b2)) (observers (subject b1) ! i)"
    by (simp add: later_def o1 i)
  also have "observers (subject b1) ! i = ?s"
    by (simp add: o1 i)
  also have "feed i (published (since b1 ?b2)) ?s =
      (?s\<lparr>key := Some (last_kept (compare comparator) ?k
               (map selector (published (since b1 ?b2))))\<rparr>,
       suppress_from (compare comparator) ?k (map selector (published (since b1 ?b2))))"
    by (rule feed_piped) simp_all
  finally have r: "received i (since b1 ?b2) =
      suppress_from (compare comparator) ?k (map selector (published (since b1 ?b2)))"
    by simp
  from t1 t2 have "trace ?b2 = trace b @ (Notify i ?k # since b1 ?b2)"
    by simp
  then have "since b ?b2 = Notify i ?k # since b1 ?b2"
    by (rule since_append)
  moreover have "snapshot b1 = snapshot b"
    by (simp add: b1 subscribe_def Let_def split_beta snapshot_def)
  with l have "snapshot ?b2 = last (snapshot b # published (since b1 ?b2))"
    by (simp add: later_def)
  ultimately show ?thesis using r by simp
qed

section \<open>The claims\<close>

lemmas eval_defs =
  createBrick_def initDevtools_def subscribe_def asObservable_def select_def deliver_def
  registerAction_def registerSideEffect_def dispatch_def setData_def subject_next_def
  send_def snapshot_def since_def run_def compare_def sent_def transition_def label_of_def
  inc_def get_field_def fields_of_def counter_brick_def watched_counter_def number_brick_def
  logging_brick_def one_brick_def updates_def quoted_def Let_def split_beta

subsection \<open>C1: setData with a value\<close>

text \<open>
  C1 as stated (for every value \<open>v2\<close>, \<^verbatim>\<open>setData(v2)\<close> installs \<open>v2\<close> and notifies) fails
  for a primitive: a Brick of numbers at 0 with one subscriber, given \<^verbatim>\<open>setData(5)\<close>,
  stays at 0 and writes nothing to the trace.
\<close>

theorem setData_value_counterexample:
  "snapshot (setData (Val (JNum 5)) None number_brick) \<noteq> JNum 5
   \<and> snapshot (setData (Val (JNum 5)) None number_brick) = JNum 0
   \<and> since number_brick (setData (Val (JNum 5)) None number_brick) = []"
  by (simp add: eval_defs)

text \<open>
  C1, amended: for every value \<open>v\<close> that is an object (\<^verbatim>\<open>instanceof Object\<close>, not a
  function), \<^verbatim>\<open>setData(v)\<close> installs \<open>v\<close> as the current value (the snapshot is \<open>v\<close>, also
  under \<^verbatim>\<open>===\<close>), pushes exactly one value, \<open>v\<close>, into the stream, and every subscriber
  of the plain stream that was there before the call receives exactly one notification,
  carrying \<open>v\<close>. Nothing is assumed about the previous value, so this holds when \<open>v\<close>
  is equal to it.
\<close>

theorem setData_object:
  assumes "instanceof_Object v"
  shows "snapshot (setData (Val v) action_arg b) = v
    \<and> strict_equals (snapshot (setData (Val v) action_arg b)) v
    \<and> trace (setData (Val v) action_arg b) = trace b @ since b (setData (Val v) action_arg b)
    \<and> published (since b (setData (Val v) action_arg b)) = [v]
    \<and> (\<forall>i < length (observers (subject b)).
          source (observers (subject b) ! i) = AsObservable \<longrightarrow>
          received i (since b (setData (Val v) action_arg b)) = [v])"
proof -
  let ?b' = "setData (Val v) action_arg b"
  let ?es = "sent (devtoolWrapper b) (label_of action_arg) (StatePayload v)
       @ Next v # snd (notify 0 v (observers (subject b)))"
  from assms have snap: "snapshot ?b' = v" by (simp add: setData_Val_simps)
  from assms have t: "trace ?b' = trace b @ ?es" by (simp add: setData_Val_simps)
  then have s: "since b ?b' = ?es" by (rule since_append)
  have p: "published ?es = [v]"
    by (simp add: published_append published_sent published_notify)
  have r: "received i ?es = [v]"
    if "i < length (observers (subject b))" "source (observers (subject b) ! i) = AsObservable"
    for i
    using received_notify_direct [OF that] by (simp add: received_append received_sent)
  from snap t p r show ?thesis
    unfolding s by (simp add: strict_equals_refl)
qed

text \<open>
  Witness: the watched counter is at \<^verbatim>\<open>{count: 0}\<close> and is given the very same object
  again; its subscriber still receives it once.
\<close>

theorem setData_object_witness:
  "instanceof_Object (JObj 0 [(''count'', JNum 0)])
   \<and> snapshot watched_counter = JObj 0 [(''count'', JNum 0)]
   \<and> source (observers (subject watched_counter) ! 0) = AsObservable
   \<and> snapshot (setData (Val (JObj 0 [(''count'', JNum 0)])) None watched_counter)
       = JObj 0 [(''count'', JNum 0)]
   \<and> published (since watched_counter
         (setData (Val (JObj 0 [(''count'', JNum 0)])) None watched_counter))
       = [JObj 0 [(''count'', JNum 0)]]
   \<and> received 0 (since watched_counter
         (setData (Val (JObj 0 [(''count'', JNum 0)])) None watched_counter))
       = [JObj 0 [(''count'', JNum 0)]]"
  using setData_object [of "JObj 0 [(''count'', JNum 0)]" None watched_counter]
  by (simp add: eval_defs)

subsection \<open>C2: dispatch applies the registered reducer\<close>

text \<open>
  C2: when the reducer \<open>r\<close> is registered under a name, dispatching that name with the
  payload \<open>p\<close> makes the snapshot \<open>r s p\<close>, where \<open>s\<close> is the snapshot before the call. In
  the scenario, the Brick starts at \<^verbatim>\<open>{count: 0}\<close>, INC is registered, and dispatching
  INC with 5 and then with 3 leaves \<^verbatim>\<open>{count: 5}\<close> and then \<^verbatim>\<open>{count: 8}\<close>, with or without
  an adapter and whatever references the new objects get.
\<close>

theorem dispatch_applies_reducer:
  "(actions b name = Some r \<longrightarrow> snapshot (dispatch name p b) = r (snapshot b) p)
   \<and> actions (counter_brick available new) ''INC'' = Some (inc new)
   \<and> fields_of (snapshot (counter_brick available new)) = [(''count'', JNum 0)]
   \<and> fields_of (snapshot (dispatch ''INC'' (JNum 5) (counter_brick available new)))
       = [(''count'', JNum 5)]
   \<and> fields_of (snapshot (dispatch ''INC'' (JNum 3)
         (dispatch ''INC'' (JNum 5) (counter_brick available new))))
       = [(''count'', JNum 8)]"
proof -
  have reg: "actions (counter_brick available new) ''INC'' = Some (inc new)"
    by (simp add: counter_brick_def registerAction_def createBrick_def)
  have s0: "snapshot (counter_brick available new) = JObj 0 [(''count'', JNum 0)]"
    by (simp add: counter_brick_def registerAction_def createBrick_def snapshot_def)
  let ?b1 = "dispatch ''INC'' (JNum 5) (counter_brick available new)"
  have s1: "fields_of (snapshot ?b1) = [(''count'', JNum 5)]"
    by (simp add: dispatch_snapshot reg s0 inc_def get_field_def fields_of_def)
  have "actions ?b1 ''INC'' = Some (inc new)"
    by (simp add: dispatch_registries reg)
  then have "snapshot (dispatch ''INC'' (JNum 3) ?b1) = inc new (snapshot ?b1) (JNum 3)"
    by (simp add: dispatch_snapshot)
  moreover have "get_field (snapshot ?b1) ''count'' = JNum 5"
    by (simp add: dispatch_snapshot reg s0 inc_def get_field_def)
  ultimately have s2: "fields_of (snapshot (dispatch ''INC'' (JNum 3) ?b1)) = [(''count'', JNum 8)]"
    by (simp add: inc_def fields_of_def)
  have g: "actions b name = Some r \<longrightarrow> snapshot (dispatch name p b) = r (snapshot b) p"
    by (simp add: dispatch_snapshot)
  have s0': "fields_of (snapshot (counter_brick available new)) = [(''count'', JNum 0)]"
    by (simp add: s0 fields_of_def)
  from g reg s0' s1 s2 show ?thesis
    by (intro conjI)
qed

theorem dispatch_applies_reducer_witness:
  "actions (counter_brick True (\<lambda>s p. 1)) ''INC'' = Some (inc (\<lambda>s p. 1))
   \<and> snapshot (dispatch ''INC'' (JNum 5) (counter_brick True (\<lambda>s p. 1)))
       = JObj 1 [(''count'', JNum 5)]"
  using dispatch_applies_reducer
    [where b = "counter_brick True (\<lambda>s p. 1)" and name = "''INC''"
       and r = "inc (\<lambda>s p. 1)" and p = "JNum 5" and available = True and new = "\<lambda>s p. 1"]
  by (simp add: eval_defs)

subsection \<open>C3: the action comes before the side effect\<close>

text \<open>
  C3: when a reducer and a side effect are registered under the same name, dispatch
  writes to the trace, in this order: the state transition (the push of the new state,
  the notifications, the report of the transition to the adapter), then the call of
  the side effect, then the report of the side effect. The snapshot is the new state,
  and no side effect is called within the transition.
\<close>

theorem dispatch_action_before_side_effect:
  assumes "actions b name = Some r" and "sideEffects b name = Some e"
  shows "trace (dispatch name p b) =
      trace b
        @ transition b name (r (snapshot b) p)
        @ [Effect e p]
        @ sent (devtoolWrapper b) name
            (ObjectLiteral [(''type'', JStr ''sideEffect''), (''payload'', p)])
    \<and> snapshot (dispatch name p b) = r (snapshot b) p
    \<and> published (transition b name (r (snapshot b) p)) = [r (snapshot b) p]
    \<and> (\<forall>ev \<in> set (transition b name (r (snapshot b) p)). \<forall>c q. ev \<noteq> Effect c q)"
proof -
  have "ev \<noteq> Effect c q" if "ev \<in> set (transition b name v)" for ev c q v
  proof -
    from that consider "ev = Next v"
      | "ev \<in> set (snd (notify 0 v (observers (subject b))))"
      | "ev \<in> set (sent (devtoolWrapper b) name (StatePayload v))"
      by (auto simp: transition_def)
    then show ?thesis
    proof cases
      case 1
      then show ?thesis by simp
    next
      case 2
      then show ?thesis by (auto dest: notify_only_notifies)
    next
      case 3
      then show ?thesis by (auto simp: sent_def split: option.splits)
    qed
  qed
  with assms show ?thesis
    by (simp add: dispatch_trace dispatch_snapshot published_transition)
qed

theorem dispatch_action_before_side_effect_witness:
  "actions watched_counter ''INC'' = Some (inc (\<lambda>s p. 1))
   \<and> sideEffects watched_counter ''INC'' = Some (Callback 0)
   \<and> since watched_counter (dispatch ''INC'' (JNum 5) watched_counter) =
       [Next (JObj 1 [(''count'', JNum 5)]),
        Notify 0 (JObj 1 [(''count'', JNum 5)]),
        Send ''INC'' (StatePayload (JObj 1 [(''count'', JNum 5)])),
        Effect (Callback 0) (JNum 5),
        Send ''INC'' (ObjectLiteral [(''type'', JStr ''sideEffect''), (''payload'', JNum 5)])]"
  using dispatch_action_before_side_effect
    [of watched_counter "''INC''" "inc (\<lambda>s p. 1)" "Callback 0" "JNum 5"]
  by (simp add: eval_defs)

subsection \<open>C4: registering a name twice\<close>

text \<open>
  C4: when the name is already in the action registry, registerAction throws the
  duplicate-name error and the Brick is as before: the first reducer is still the one
  under the name, and a dispatch applies it. The same holds for registerSideEffect and
  the side-effect registry: the first callback is the one a dispatch calls.
\<close>

theorem duplicate_registration_throws:
  "(actions b name = Some r \<longrightarrow>
      registerAction name r2 b =
        (Some (Error (''Action with the name '' @ quoted name @ '' is already registered.'')), b)
      \<and> actions (snd (registerAction name r2 b)) name = Some r
      \<and> snapshot (dispatch name p (snd (registerAction name r2 b))) = r (snapshot b) p)
   \<and> (sideEffects b name = Some e \<longrightarrow>
      registerSideEffect name e2 b =
        (Some (Error (''Side effect with the name '' @ quoted name @ '' is already registered.'')), b)
      \<and> sideEffects (snd (registerSideEffect name e2 b)) name = Some e
      \<and> calls (since b (dispatch name p (snd (registerSideEffect name e2 b)))) = [(e, p)])"
proof -
  have "calls (since b (dispatch name p b)) = [(e, p)]" if "sideEffects b name = Some e"
  proof -
    have "since b (dispatch name p b) =
        (case actions b name of None \<Rightarrow> [] | Some r \<Rightarrow> transition b name (r (snapshot b) p))
        @ Effect e p # sent (devtoolWrapper b) name
            (ObjectLiteral [(''type'', JStr ''sideEffect''), (''payload'', p)])"
      using that by (intro since_append) (simp add: dispatch_trace)
    then show ?thesis
      by (simp add: calls_append calls_sent calls_transition
            split: option.splits)
  qed
  then show ?thesis
    by (simp add: registerAction_def registerSideEffect_def dispatch_snapshot)
qed

theorem duplicate_registration_throws_witness:
  "actions (counter_brick True (\<lambda>s p. 1)) ''INC'' = Some (inc (\<lambda>s p. 1))
   \<and> fst (registerAction ''INC'' (\<lambda>s p. s) (counter_brick True (\<lambda>s p. 1))) =
       Some (Error (''Action with the name '' @ [CHR 0x22] @ ''INC'' @ [CHR 0x22]
                    @ '' is already registered.''))
   \<and> snapshot (dispatch ''INC'' (JNum 5)
         (snd (registerAction ''INC'' (\<lambda>s p. s) (counter_brick True (\<lambda>s p. 1)))))
       = JObj 1 [(''count'', JNum 5)]
   \<and> sideEffects logging_brick ''LOG'' = Some (Callback 0)
   \<and> fst (registerSideEffect ''LOG'' (Callback 1) logging_brick) =
       Some (Error (''Side effect with the name '' @ [CHR 0x22] @ ''LOG'' @ [CHR 0x22]
                    @ '' is already registered.''))
   \<and> calls (since logging_brick (dispatch ''LOG'' (JNum 7)
         (snd (registerSideEffect ''LOG'' (Callback 1) logging_brick))))
       = [(Callback 0, JNum 7)]"
  using duplicate_registration_throws
    [where b = "counter_brick True (\<lambda>s p. 1)" and name = "''INC''"
       and r = "inc (\<lambda>s p. 1)" and ?r2.0 = "\<lambda>s p. s" and p = "JNum 5"]
    duplicate_registration_throws
    [where b = logging_brick and name = "''LOG''" and e = "Callback 0"
       and ?e2.0 = "Callback 1" and p = "JNum 7"]
  by (simp add: eval_defs)

subsection \<open>C5: dispatching an unknown name\<close>

text \<open>
  C5: when the name is in neither registry, dispatch returns and the Brick is exactly as
  before: the same snapshot, the same subscribers, the same trace (so nothing was
  pushed into the stream and no observer, adapter or side effect was called). dispatch
  has no error result: the only throws of the class are those of the two register
  methods.
\<close>

theorem dispatch_unknown_is_noop:
  assumes "actions b name = None" and "sideEffects b name = None"
  shows "dispatch name p b = b"
  using assms by (simp add: dispatch_def)

theorem dispatch_unknown_is_noop_witness:
  "actions watched_counter ''unknown'' = None
   \<and> sideEffects watched_counter ''unknown'' = None
   \<and> dispatch ''unknown'' (JNum 5) watched_counter = watched_counter"
  using dispatch_unknown_is_noop [of watched_counter "''unknown''" "JNum 5"]
  by (simp add: eval_defs)

subsection \<open>C6: the report of a side effect\<close>

text \<open>
  C6 as stated (the report's payload is the record \<^verbatim>\<open>{ kind: "sideEffect", payload }\<close>)
  fails: a Brick with an adapter and the side effect LOG, given \<^verbatim>\<open>dispatch("LOG", 7)\<close>,
  calls the callback with 7 and reports \<^verbatim>\<open>{type: 'sideEffect', payload: 7}\<close>; a record
  tagged \<^verbatim>\<open>kind\<close> is never sent.
\<close>

theorem dispatch_report_kind_counterexample:
  "trace (dispatch ''LOG'' (JNum 7) logging_brick) =
     [Effect (Callback 0) (JNum 7),
      Send ''LOG'' (ObjectLiteral [(''type'', JStr ''sideEffect''), (''payload'', JNum 7)])]
   \<and> Send ''LOG'' (ObjectLiteral [(''kind'', JStr ''sideEffect''), (''payload'', JNum 7)])
       \<notin> set (trace (dispatch ''LOG'' (JNum 7) logging_brick))"
  by (simp add: eval_defs)

text \<open>
  C6, amended: when a side effect is registered under the name, dispatch with the
  payload \<open>p\<close> calls the callback with \<open>p\<close>, once, and then reports to the devtool
  adapter, when there is one, a transition labelled with the name whose payload is the
  record \<^verbatim>\<open>{ type: "sideEffect", payload }\<close>. These are the last events of the call; what
  comes before them is the transition of the action of that name, if one is registered.
\<close>

theorem dispatch_side_effect_report:
  assumes "sideEffects b name = Some e"
  shows "trace (dispatch name p b) =
      trace b
        @ (case actions b name of
             None \<Rightarrow> []
           | Some r \<Rightarrow> transition b name (r (snapshot b) p))
        @ [Effect e p]
        @ sent (devtoolWrapper b) name
            (ObjectLiteral [(''type'', JStr ''sideEffect''), (''payload'', p)])
    \<and> calls (since b (dispatch name p b)) = [(e, p)]
    \<and> (devtoolWrapper b \<noteq> None \<longrightarrow>
          sent (devtoolWrapper b) name
            (ObjectLiteral [(''type'', JStr ''sideEffect''), (''payload'', p)])
          = [Send name (ObjectLiteral [(''type'', JStr ''sideEffect''), (''payload'', p)])])"
proof -
  let ?pre = "case actions b name of
      None \<Rightarrow> [] | Some r \<Rightarrow> transition b name (r (snapshot b) p)"
  let ?post = "sent (devtoolWrapper b) name
      (ObjectLiteral [(''type'', JStr ''sideEffect''), (''payload'', p)])"
  from assms have t: "trace (dispatch name p b) = trace b @ (?pre @ [Effect e p] @ ?post)"
    by (simp add: dispatch_trace)
  then have s: "since b (dispatch name p b) = ?pre @ [Effect e p] @ ?post"
    by (rule since_append)
  have "calls ?pre = []"
    by (simp add: calls_transition split: option.splits)
  then have c: "calls (since b (dispatch name p b)) = [(e, p)]"
    unfolding s by (simp add: calls_append calls_sent)
  from t c show ?thesis
    by (auto simp: sent_def)
qed

theorem dispatch_side_effect_report_witness:
  "sideEffects logging_brick ''LOG'' = Some (Callback 0)
   \<and> devtoolWrapper logging_brick \<noteq> None
   \<and> since logging_brick (dispatch ''LOG'' (JNum 7) logging_brick) =
       [Effect (Callback 0) (JNum 7),
        Send ''LOG'' (ObjectLiteral [(''type'', JStr ''sideEffect''), (''payload'', JNum 7)])]"
  using dispatch_side_effect_report [of logging_brick "''LOG''" "Callback 0" "JNum 7"]
  by (simp add: eval_defs)

subsection \<open>C7: selection suppresses consecutive duplicates\<close>

text \<open>
  C7: somebody subscribes to \<^verbatim>\<open>select$(selector, comparator)\<close> and the Brick then goes
  through any sequence of calls. What the subscriber has received is the selector
  applied to the current value at subscription and to every value pushed afterwards,
  with every value left out that the comparator the caller gave equates with the value
  emitted last; when the caller gave none, the values are compared with \<^verbatim>\<open>===\<close>, which
  is equality of references on objects and equality on primitives. The values pushed
  are the states of the Brick: the snapshot at the end is the last of them.

  For a Brick at 1 that is updated to 1, 2, 2 and 1, the states are 1, 1, 2, 2, 1, and
  a subscriber with the identity selector receives 1, 2, 1 without a comparator, only
  the first 1 with a comparator that equates everything, and all five with a
  comparator that equates nothing. For a Brick that goes through the object 0, the
  object 0 again and twice through the object 1 with the same fields, the subscriber
  without a comparator receives the object 0 and the object 1, and the subscriber that
  compares the fields receives the object 0 only.
\<close>

theorem select_suppresses_consecutive_duplicates:
  "(subscribe (select (Some selector) (Some c)) b = (i, b1) \<longrightarrow>
      received i (since b (run ops b1)) =
        suppress_consecutive c (map selector (snapshot b # published (since b1 (run ops b1))))
      \<and> snapshot (run ops b1) = last (snapshot b # published (since b1 (run ops b1))))
   \<and> (subscribe (select (Some selector) None) b = (j, b2) \<longrightarrow>
      received j (since b (run ops b2)) =
        suppress_consecutive strict_equals
          (map selector (snapshot b # published (since b2 (run ops b2))))
      \<and> snapshot (run ops b2) = last (snapshot b # published (since b2 (run ops b2))))
   \<and> strict_equals (JObj r fs) (JObj r' fs') = (r = r')
   \<and> (\<not> instanceof_Object x \<or> \<not> instanceof_Object y \<longrightarrow> strict_equals x y = (x = y))
   \<and> snapshot one_brick
        # published (trace (run updates (snd (subscribe (select (Some (\<lambda>v. v)) None) one_brick))))
       = [JNum 1, JNum 1, JNum 2, JNum 2, JNum 1]
   \<and> received 0 (trace (run updates (snd (subscribe (select (Some (\<lambda>v. v)) None) one_brick))))
       = [JNum 1, JNum 2, JNum 1]
   \<and> received 0 (trace (run updates
         (snd (subscribe (select (Some (\<lambda>v. v)) (Some (\<lambda>a b. True))) one_brick))))
       = [JNum 1]
   \<and> received 0 (trace (run updates
         (snd (subscribe (select (Some (\<lambda>v. v)) (Some (\<lambda>a b. False))) one_brick))))
       = [JNum 1, JNum 1, JNum 2, JNum 2, JNum 1]
   \<and> received 0 (trace (run object_updates
         (snd (subscribe (select (Some (\<lambda>v. v)) None) object_brick))))
       = [JObj 0 [(''n'', JNum 1)], JObj 1 [(''n'', JNum 1)]]
   \<and> received 0 (trace (run object_updates
         (snd (subscribe (select (Some (\<lambda>v. v)) (Some same_fields)) object_brick))))
       = [JObj 0 [(''n'', JNum 1)]]"
proof -
  have given: "received i (since b (run ops b1)) =
        suppress_consecutive c (map selector (snapshot b # published (since b1 (run ops b1))))
      \<and> snapshot (run ops b1) = last (snapshot b # published (since b1 (run ops b1)))"
    if "subscribe (select (Some selector) (Some c)) b = (i, b1)"
    using select_received [OF that] by (simp add: compare_def)
  have default: "received j (since b (run ops b2)) =
        suppress_consecutive strict_equals
          (map selector (snapshot b # published (since b2 (run ops b2))))
      \<and> snapshot (run ops b2) = last (snapshot b # published (since b2 (run ops b2)))"
    if "subscribe (select (Some selector) None) b = (j, b2)"
    using select_received [OF that] by (simp add: compare_def)
  have primitive: "strict_equals x y = (x = y)"
    if "\<not> instanceof_Object x \<or> \<not> instanceof_Object y"
    using that by (cases x; cases y) simp_all
  have states:
    "snapshot one_brick
        # published (trace (run updates (snd (subscribe (select (Some (\<lambda>v. v)) None) one_brick))))
       = [JNum 1, JNum 1, JNum 2, JNum 2, JNum 1]"
    by (simp add: eval_defs)
  have numbers:
    "received 0 (trace (run updates (snd (subscribe (select (Some (\<lambda>v. v)) None) one_brick))))
       = [JNum 1, JNum 2, JNum 1]"
    "received 0 (trace (run updates
         (snd (subscribe (select (Some (\<lambda>v. v)) (Some (\<lambda>a b. True))) one_brick))))
       = [JNum 1]"
    "received 0 (trace (run updates
         (snd (subscribe (select (Some (\<lambda>v. v)) (Some (\<lambda>a b. False))) one_brick))))
       = [JNum 1, JNum 1, JNum 2, JNum 2, JNum 1]"
    by (simp_all add: eval_defs)
  have objects:
    "received 0 (trace (run object_updates
         (snd (subscribe (select (Some (\<lambda>v. v)) None) object_brick))))
       = [JObj 0 [(''n'', JNum 1)], JObj 1 [(''n'', JNum 1)]]"
    "received 0 (trace (run object_updates
         (snd (subscribe (select (Some (\<lambda>v. v)) (Some same_fields)) object_brick))))
       = [JObj 0 [(''n'', JNum 1)]]"
    by (simp_all add: eval_defs object_brick_def object_updates_def same_fields_def)
  have reference: "strict_equals (JObj r fs) (JObj r' fs') = (r = r')"
    by simp
  from given default primitive reference states numbers objects show ?thesis
    by (intro conjI impI) (assumption | blast)+
qed

text \<open>
  Witness: the Brick at 1 with the four updates, once with the comparator that equates
  everything and once without a comparator, and \<^verbatim>\<open>===\<close> on the numbers 1 and 2.
\<close>

theorem select_suppresses_consecutive_duplicates_witness:
  "subscribe (select (Some (\<lambda>v. v)) (Some (\<lambda>a b. True))) one_brick
     = (0, snd (subscribe (select (Some (\<lambda>v. v)) (Some (\<lambda>a b. True))) one_brick))
   \<and> received 0 (since one_brick (run updates
        (snd (subscribe (select (Some (\<lambda>v. v)) (Some (\<lambda>a b. True))) one_brick))))
      = [JNum 1]
   \<and> subscribe (select (Some (\<lambda>v. v)) None) one_brick
     = (0, snd (subscribe (select (Some (\<lambda>v. v)) None) one_brick))
   \<and> received 0 (since one_brick
        (run updates (snd (subscribe (select (Some (\<lambda>v. v)) None) one_brick))))
      = [JNum 1, JNum 2, JNum 1]
   \<and> \<not> instanceof_Object (JNum 1)
   \<and> \<not> strict_equals (JNum 1) (JNum 2)
   \<and> strict_equals (JNum 1) (JNum 1)"
  using select_suppresses_consecutive_duplicates
    [where selector = "\<lambda>v. v" and c = "\<lambda>a b. True" and b = one_brick and i = 0
       and ?b1.0 = "snd (subscribe (select (Some (\<lambda>v. v)) (Some (\<lambda>a b. True))) one_brick)"
       and j = 0 and ?b2.0 = "snd (subscribe (select (Some (\<lambda>v. v)) None) one_brick)"
       and ops = updates and x = "JNum 1" and y = "JNum 2"]
  by (simp add: eval_defs)

subsection \<open>C8: the registries never shrink\<close>

text \<open>
  C8: whatever sequence of calls a Brick goes through (setData, the two register
  methods, also when they throw, dispatch, subscriptions), a name that is in the action
  registry stays there with the same reducer, and a name that is in the side-effect
  registry stays there with the same callback.
\<close>

theorem registries_never_shrink:
  "(actions b name = Some r \<longrightarrow> actions (run ops b) name = Some r)
   \<and> (sideEffects b name = Some e \<longrightarrow> sideEffects (run ops b) name = Some e)"
proof (induction ops arbitrary: b)
  case Nil
  show ?case by (simp add: run_def)
next
  case (Cons op ops)
  have step: "run (op # ops) b = run ops (exec op b)"
    by (simp add: run_def)
  show ?case
  proof (intro conjI impI)
    assume "actions b name = Some r"
    then have "actions (exec op b) name = Some r"
      by (rule exec_keeps_action)
    with Cons.IH [of "exec op b"] show "actions (run (op # ops) b) name = Some r"
      by (simp add: step)
  next
    assume "sideEffects b name = Some e"
    then have "sideEffects (exec op b) name = Some e"
      by (rule exec_keeps_sideEffect)
    with Cons.IH [of "exec op b"] show "sideEffects (run (op # ops) b) name = Some e"
      by (simp add: step)
  qed
qed

theorem registries_never_shrink_witness:
  "actions watched_counter ''INC'' = Some (inc (\<lambda>s p. 1))
   \<and> sideEffects watched_counter ''INC'' = Some (Callback 0)
   \<and> actions (run [RegisterAction ''INC'' (\<lambda>s p. s), Dispatch ''INC'' (JNum 5),
         RegisterSideEffect ''INC'' (Callback 1), SetData (Val JNull) None,
         RegisterAction ''DEC'' (\<lambda>s p. s)] watched_counter) ''INC''
       = Some (inc (\<lambda>s p. 1))
   \<and> sideEffects (run [RegisterAction ''INC'' (\<lambda>s p. s), Dispatch ''INC'' (JNum 5),
         RegisterSideEffect ''INC'' (Callback 1), SetData (Val JNull) None,
         RegisterAction ''DEC'' (\<lambda>s p. s)] watched_counter) ''INC''
       = Some (Callback 0)"
  using registries_never_shrink
    [of watched_counter "''INC''" "inc (\<lambda>s p. 1)"
       "[RegisterAction ''INC'' (\<lambda>s p. s), Dispatch ''INC'' (JNum 5),
         RegisterSideEffect ''INC'' (Callback 1), SetData (Val JNull) None,
         RegisterAction ''DEC'' (\<lambda>s p. s)]" "Callback 0"]
  by (simp add: watched_counter_def counter_brick_def registerAction_def
        registerSideEffect_def subscribe_def createBrick_def Let_def split_beta)

subsection \<open>C9: only the direct form of setData checks its argument\<close>

text \<open>
  C9: for every primitive \<open>p\<close> (a value that is no object), \<^verbatim>\<open>setData(p)\<close> leaves the
  Brick exactly as it was (same snapshot, nothing pushed, nobody notified), while
  setData with a transformer whose result is \<open>p\<close> installs \<open>p\<close>: the snapshot is \<open>p\<close>,
  exactly one value, \<open>p\<close>, is pushed, and every subscriber of the plain stream receives
  \<open>p\<close> once.
\<close>

theorem setData_checks_only_direct_values:
  assumes "\<not> instanceof_Object p"
  shows "setData (Val p) action_arg b = b
    \<and> (f (snapshot b) = p \<longrightarrow>
         snapshot (setData (Fn f) action_arg b) = p
         \<and> trace (setData (Fn f) action_arg b) = trace b @ transition b (label_of action_arg) p
         \<and> published (transition b (label_of action_arg) p) = [p]
         \<and> (\<forall>i < length (observers (subject b)).
               source (observers (subject b) ! i) = AsObservable \<longrightarrow>
               received i (transition b (label_of action_arg) p) = [p]))"
  using assms
  by (simp add: setData_Val_simps setData_Fn_simps published_transition
        received_transition_direct)

theorem setData_checks_only_direct_values_witness:
  "\<not> instanceof_Object (JNum 5)
   \<and> setData (Val (JNum 5)) None number_brick = number_brick
   \<and> snapshot number_brick = JNum 0
   \<and> snapshot (setData (Fn (\<lambda>s. JNum 5)) None number_brick) = JNum 5
   \<and> since number_brick (setData (Fn (\<lambda>s. JNum 5)) None number_brick) =
       [Next (JNum 5), Notify 0 (JNum 5), Send ''SET_DATA'' (StatePayload (JNum 5))]"
  using setData_checks_only_direct_values
    [of "JNum 5" None number_brick "\<lambda>s. JNum 5"]
  by (simp add: eval_defs)

subsection \<open>C10: what registering leaves alone\<close>

text \<open>
  C10: after registerAction, thrown or not, the Brick differs from the Brick before at
  most in its action registry; after registerSideEffect, at most in its side-effect
  registry. So the snapshot is the same and the trace is the same: nothing was pushed
  into the stream and nothing was sent to the adapter.
\<close>

theorem registration_changes_only_its_registry:
  "snd (registerAction name reducer b)
     = b\<lparr>actions := actions (snd (registerAction name reducer b))\<rparr>
   \<and> snapshot (snd (registerAction name reducer b)) = snapshot b
   \<and> trace (snd (registerAction name reducer b)) = trace b
   \<and> snd (registerSideEffect name effect b)
     = b\<lparr>sideEffects := sideEffects (snd (registerSideEffect name effect b))\<rparr>
   \<and> snapshot (snd (registerSideEffect name effect b)) = snapshot b
   \<and> trace (snd (registerSideEffect name effect b)) = trace b"
  by (simp add: registerAction_def registerSideEffect_def snapshot_def)

theorem registration_changes_only_its_registry_witness:
  "snapshot (snd (registerAction ''DEC'' (\<lambda>s p. s) watched_counter)) = snapshot watched_counter
   \<and> trace (snd (registerAction ''DEC'' (\<lambda>s p. s) watched_counter)) = trace watched_counter
   \<and> snapshot (snd (registerSideEffect ''INC'' (Callback 1) watched_counter))
       = snapshot watched_counter
   \<and> trace (snd (registerSideEffect ''INC'' (Callback 1) watched_counter))
       = trace watched_counter"
  using registration_changes_only_its_registry
    [of "''DEC''" "\<lambda>s p. s" watched_counter]
    registration_changes_only_its_registry
    [of "''INC''" _ watched_counter "Callback 1"]
  by simp

end
